theory Spec2Isabelle
  imports Complex_Main
begin

section \<open>The dummy database of the fake solar-yield API\<close>

text \<open>
  A shallow embedding of \<^verbatim>\<open>fake_api/internal/source/dummydb.py\<close>.

  Conventions of the model:
  \<^item> Python floats are read as real numbers: a statement about a float-valued field
    is a statement of exact real arithmetic (no rounding, no NaN, no infinities). The
    definitions named with \<open>double\<close> round as the floats of the code do.
  \<^item> A Python number that may be an \<^verbatim>\<open>int\<close> or a \<^verbatim>\<open>float\<close> at run time keeps its
    run-time type as a constructor of \<open>pynum\<close>.
  \<^item> An aware UTC \<^verbatim>\<open>datetime\<close> is its number of microseconds since the Unix epoch,
    a \<^verbatim>\<open>timedelta\<close> is its number of microseconds (Python stores both with that
    resolution). The limits of the \<^verbatim>\<open>datetime\<close> type (years 1 to 9999), and the
    exceptions raised at them, are modelled by the definitions named with
    \<open>checked\<close>; the other definitions compute on unbounded integers.
  \<^item> The environment of the code is passed explicitly: the two readings of the clock
    made by \<^verbatim>\<open>getWindow\<close>, the UTC offset of the local time zone (a function of the
    instant, in seconds), and the stream of numbers that \<^verbatim>\<open>random.random()\<close> returns.
\<close>

subsection \<open>Python numbers\<close>

datatype pynum = PyInt int | PyFloat real

fun num_val :: "pynum \<Rightarrow> real" where
  "num_val (PyInt i) = of_int i"
| "num_val (PyFloat x) = x"

fun is_PyIntTyped :: "pynum \<Rightarrow> bool" where
  "is_PyIntTyped (PyInt i) = True"
| "is_PyIntTyped (PyFloat x) = False"

text \<open>\<^verbatim>\<open>int(x)\<close> on a float truncates towards zero.\<close>

definition py_int :: "real \<Rightarrow> int" where
  "py_int x = (if 0 \<le> x then \<lfloor>x\<rfloor> else \<lceil>x\<rceil>)"

text \<open>\<^verbatim>\<open>round(x)\<close> on a float rounds to the nearest integer, ties to the even one.\<close>

definition py_round :: "real \<Rightarrow> int" where
  "py_round x =
     (let f = \<lfloor>x\<rfloor>; d = x - of_int f
      in if d < 1 / 2 then f
         else if 1 / 2 < d then f + 1
         else if even f then f else f + 1)"

subsection \<open>Double-precision arithmetic\<close>

text \<open>
  Where a statement depends on the rounding of the code's floats, the operations are
  those of IEEE 754 binary64: the exact result, rounded to the nearest double, ties to
  the even significand. A double has a 53-bit significand and an exponent of at least
  \<open>- 1022\<close> (below it the spacing stays \<open>2 powr - 1074\<close>). Results beyond
  the largest double are not modelled; none arises from the values used here.
\<close>

definition double_exponent :: "real \<Rightarrow> int" where
  "double_exponent x = max \<lfloor>log 2 \<bar>x\<bar>\<rfloor> (- 1022)"

definition round_double :: "real \<Rightarrow> real" where
  "round_double x =
     (if x = 0 then 0
      else (let u = 2 powr of_int (double_exponent x - 52)
            in of_int (py_round (x / u)) * u))"

definition double_mul :: "real \<Rightarrow> real \<Rightarrow> real" where
  "double_mul a b = round_double (a * b)"

definition double_div :: "real \<Rightarrow> real \<Rightarrow> real" where
  "double_div a b = round_double (a / b)"

definition double_add :: "real \<Rightarrow> real \<Rightarrow> real" where
  "double_add a b = round_double (a + b)"

definition double_sub :: "real \<Rightarrow> real \<Rightarrow> real" where
  "double_sub a b = round_double (a - b)"

subsection \<open>The random source\<close>

text \<open>
  The state of the generator is the stream of the numbers it will return;
  \<^verbatim>\<open>random.random()\<close> returns the head and leaves the tail.
\<close>

type_synonym rng = "nat \<Rightarrow> real"

definition random_random :: "rng \<Rightarrow> real \<times> rng" where
  "random_random g = (g 0, \<lambda>n. g (Suc n))"

text \<open>The contract of \<^verbatim>\<open>random.random()\<close>: every number drawn lies in the unit interval.\<close>

definition unit_draws :: "rng \<Rightarrow> bool" where
  "unit_draws g \<longleftrightarrow> (\<forall>n. 0 \<le> g n \<and> g n \<le> 1)"

subsection \<open>Dates and times\<close>

type_synonym datetime = int
type_synonym timedelta = int

definition timedelta_days :: "int \<Rightarrow> timedelta" where
  "timedelta_days d = d * 86400000000"

definition timedelta_minutes :: "int \<Rightarrow> timedelta" where
  "timedelta_minutes m = m * 60000000"

text \<open>\<^verbatim>\<open>d.replace(hour=0, minute=0, second=0, microsecond=0)\<close> on a UTC datetime.\<close>

definition replace_midnight :: "datetime \<Rightarrow> datetime" where
  "replace_midnight d = d - d mod 86400000000"

text \<open>\<^verbatim>\<open>d.timestamp()\<close>: a float, the seconds since the epoch.\<close>

definition timestamp :: "datetime \<Rightarrow> pynum" where
  "timestamp d = PyFloat (of_int d / 1000000)"

text \<open>\<^verbatim>\<open>a / b\<close> on two timedeltas is a float (the divisor here is never zero).\<close>

definition timedelta_truediv :: "timedelta \<Rightarrow> timedelta \<Rightarrow> real" where
  "timedelta_truediv a b = of_int a / of_int b"

text \<open>The fields of a naive datetime that the code reads.\<close>

record naive_datetime =
  year :: int
  month :: int
  day :: int
  hour :: int
  minute :: int
  second :: int

text \<open>
  The proleptic Gregorian date of a day number (days since 1970-01-01),
  as the library computes it.
\<close>

definition civil_from_days :: "int \<Rightarrow> int \<times> int \<times> int" where
  "civil_from_days z0 =
     (let z = z0 + 719468;
          era = z div 146097;
          doe = z - era * 146097;
          yoe = (doe - doe div 1460 + doe div 36524 - doe div 146096) div 365;
          y = yoe + era * 400;
          doy = doe - (365 * yoe + yoe div 4 - yoe div 100);
          mp = (5 * doy + 2) div 153;
          d = doy - (153 * mp + 2) div 5 + 1;
          m = (if mp < 10 then mp + 3 else mp - 9)
      in (if m \<le> 2 then y + 1 else y, m, d))"

text \<open>
  The whole epoch seconds that \<^verbatim>\<open>datetime.fromtimestamp\<close> hands to the platform's
  \<^verbatim>\<open>localtime\<close>: an int as it is, a float rounded to microseconds first.
\<close>

fun timestamp_seconds :: "pynum \<Rightarrow> int" where
  "timestamp_seconds (PyInt t) = t"
| "timestamp_seconds (PyFloat x) = py_round (x * 1000000) div 1000000"

text \<open>
  \<^verbatim>\<open>datetime.fromtimestamp(t)\<close> without a time zone argument: the naive local time.
  \<open>tz\<close> gives the UTC offset of the local zone, in seconds, at an instant.
\<close>

definition fromtimestamp :: "(int \<Rightarrow> int) \<Rightarrow> pynum \<Rightarrow> naive_datetime" where
  "fromtimestamp tz t =
     (let s = timestamp_seconds t;
          l = s + tz s;
          (y, m, d) = civil_from_days (l div 86400);
          r = l mod 86400
      in \<lparr>year = y, month = m, day = d,
          hour = r div 3600, minute = r mod 3600 div 60, second = r mod 60\<rparr>)"

subsection \<open>The source\<close>

text \<open>\<^verbatim>\<open>step\<close> defines the time interval between each data point.\<close>

definition step :: timedelta where
  "step = timedelta_minutes 5"

record FakeYield =
  YieldKW :: real
  ErrLow :: real
  ErrHigh :: real

text \<open>
  \<^verbatim>\<open>getWindow\<close> reads the clock twice; \<open>now1\<close> and \<open>now2\<close> are the two readings.
\<close>

definition getWindow :: "datetime \<Rightarrow> datetime \<Rightarrow> datetime \<times> datetime" where
  "getWindow now1 now2 =
     (let start = replace_midnight (now1 - timedelta_days 2);
          end = replace_midnight (now2 + timedelta_days 2)
      in (start, end))"

text \<open>The local variables of \<^verbatim>\<open>BasicSolarYieldFunc\<close>, in the order of the source.\<close>

definition hourX :: "naive_datetime \<Rightarrow> real" where
  "hourX time =
     of_int (day time) * 24 + of_int (hour time) + of_int (minute time) / 60
       + of_int (second time) / 3600"

definition scaleX :: real where
  "scaleX = pi / 12"

definition translateX :: real where
  "translateX = - pi / 2"

definition translateY :: "naive_datetime \<Rightarrow> real" where
  "translateY time = sin ((pi / 6) * of_int (month time) + translateX) / 2"

definition basefunc :: "naive_datetime \<Rightarrow> real" where
  "basefunc time =
     (let b = sin (scaleX * hourX time + translateX) + translateY time;
          b = max 0 b
      in b ^ 4 / (15 / 10) ^ 4)"

definition noise :: "naive_datetime \<Rightarrow> real \<Rightarrow> real" where
  "noise time r =
     (let n = (sin (pi * of_int (hour time)) / 20) * sin (pi * of_int (hour time) / 3) + 1
      in n * r / 20 + 97 / 100)"

definition BasicSolarYieldFunc ::
  "(int \<Rightarrow> int) \<Rightarrow> pynum \<Rightarrow> int \<Rightarrow> rng \<Rightarrow> FakeYield \<times> rng" where
  "BasicSolarYieldFunc tz timeUnix scaleFactor g =
     (let time = fromtimestamp tz timeUnix;
          (r, g1) = random_random g;
          output = basefunc time * noise time r * of_int scaleFactor
      in if 0 < output then
           (let (r1, g2) = random_random g1;
                (r2, g3) = random_random g2
            in (\<lparr>YieldKW = output,
                 ErrLow = output - (r1 * output / 10),
                 ErrHigh = output + (r2 * output / 10)\<rparr>, g3))
         else (\<lparr>YieldKW = output, ErrLow = 0, ErrHigh = 0\<rparr>, g1))"

text \<open>
  Lines 81 to 91 of the source on doubles: \<open>output\<close> is the double that line 78
  computed, \<open>r1\<close> and \<open>r2\<close> are the two draws, and each operation rounds.
\<close>

definition error_bounds_double :: "real \<Rightarrow> real \<Rightarrow> real \<Rightarrow> FakeYield" where
  "error_bounds_double output r1 r2 =
     (if 0 < output then
        \<lparr>YieldKW = output,
         ErrLow = double_sub output (double_div (double_mul r1 output) 10),
         ErrHigh = double_add output (double_div (double_mul r2 output) 10)\<rparr>
      else \<lparr>YieldKW = output, ErrLow = 0, ErrHigh = 0\<rparr>)"

text \<open>
  Modelled from the spec: the record type \<^verbatim>\<open>internal.DBPredictedYield\<close> is declared
  outside the source file. Its fields are those of the spec's PredictedYieldRecord;
  Python does not check the declared field types, so \<open>TimeUnix\<close> holds whatever number
  the constructor is given. The three other fields are given the results of \<^verbatim>\<open>int(...)\<close>.
\<close>

record DBPredictedYield =
  TimeUnix :: pynum
  YieldKW :: int
  ErrLow :: int
  ErrHigh :: int

text \<open>
  The loop \<^verbatim>\<open>for i in range(numSteps)\<close>: the list of the indices still to visit,
  the list \<^verbatim>\<open>yields\<close> built so far and the state of the random source.
\<close>

fun yields_loop ::
  "(int \<Rightarrow> int) \<Rightarrow> datetime \<Rightarrow> int list \<Rightarrow> DBPredictedYield list \<Rightarrow> rng
     \<Rightarrow> DBPredictedYield list \<times> rng" where
  "yields_loop tz start [] yields g = (yields, g)"
| "yields_loop tz start (i # is) yields g =
     (let time = start + i * step;
          (y, g') = BasicSolarYieldFunc tz (timestamp time) 10000 g
      in yields_loop tz start is
           (yields @ [\<lparr>TimeUnix = timestamp time,
                       YieldKW = py_int (FakeYield.YieldKW y),
                       ErrLow = py_int (FakeYield.ErrLow y),
                       ErrHigh = py_int (FakeYield.ErrHigh y)\<rparr>]) g')"

text \<open>\<^verbatim>\<open>range(n)\<close>: empty when \<open>n \<le> 0\<close>.\<close>

definition py_range :: "int \<Rightarrow> int list" where
  "py_range n = map int [0..<nat n]"

text \<open>The body of the method once the window is known.\<close>

definition yields_for_window ::
  "(int \<Rightarrow> int) \<Rightarrow> datetime \<Rightarrow> datetime \<Rightarrow> rng \<Rightarrow> DBPredictedYield list \<times> rng" where
  "yields_for_window tz start end g =
     (let numSteps = py_int (timedelta_truediv (end - start) step)
      in yields_loop tz start (py_range numSteps) [] g)"

definition get_predicted_solar_yields_for_location ::
  "(int \<Rightarrow> int) \<Rightarrow> datetime \<Rightarrow> datetime \<Rightarrow> string \<Rightarrow> rng \<Rightarrow> DBPredictedYield list \<times> rng" where
  "get_predicted_solar_yields_for_location tz now1 now2 location g =
     (let (start, end) = getWindow now1 now2
      in yields_for_window tz start end g)"

subsection \<open>The failures of the library calls\<close>

text \<open>The exceptions of the library calls that the method makes.\<close>

datatype py_error = ValueError | OverflowError

text \<open>
  The instants a \<^verbatim>\<open>datetime\<close> can hold: 0001-01-01T00:00:00 to 9999-12-31T23:59:59.999999
  UTC. Arithmetic that leaves the range raises \<^verbatim>\<open>OverflowError\<close>.
\<close>

definition valid_datetime :: "datetime \<Rightarrow> bool" where
  "valid_datetime d \<longleftrightarrow> - 62135596800000000 \<le> d \<and> d \<le> 253402300799999999"

text \<open>
  \<^verbatim>\<open>d.timestamp()\<close> and \<^verbatim>\<open>a / b\<close> on timedeltas divide two integers and round the
  quotient to a double.
\<close>

definition timestamp_double :: "datetime \<Rightarrow> pynum" where
  "timestamp_double d = PyFloat (round_double (of_int d / 1000000))"

definition timedelta_truediv_double :: "timedelta \<Rightarrow> timedelta \<Rightarrow> real" where
  "timedelta_truediv_double a b = round_double (of_int a / of_int b)"

text \<open>
  The whole seconds that \<^verbatim>\<open>datetime.fromtimestamp\<close> takes from its argument. A float is
  split into its integral and fractional parts; the fraction, times a million (in double
  arithmetic), is rounded half to even, and a full million carries into the seconds.
\<close>

fun timestamp_seconds_double :: "pynum \<Rightarrow> int" where
  "timestamp_seconds_double (PyInt t) = t"
| "timestamp_seconds_double (PyFloat x) =
     (let intpart = py_int x;
          floatpart = x - of_int intpart;
          us = py_round (double_mul floatpart 1000000)
      in (intpart * 1000000 + us) div 1000000)"

text \<open>
  \<^verbatim>\<open>datetime.fromtimestamp\<close> with its failures. It builds the local time of the instant
  and, to detect a repeated interval, the local time one day earlier and (where the
  UTC offset has dropped by \<open>trans\<close> seconds within that day) the local time at
  \<open>s + trans\<close>; each must have a year from 1 to 9999, or the call raises. The model
  returns \<^verbatim>\<open>ValueError\<close>, which is what the call raises for the timestamp of a datetime
  (far beyond that range the platform reports the failure earlier, under another class).
\<close>

definition local_year :: "(int \<Rightarrow> int) \<Rightarrow> int \<Rightarrow> int" where
  "local_year tz s = fst (civil_from_days ((s + tz s) div 86400))"

definition year_ok :: "int \<Rightarrow> bool" where
  "year_ok y \<longleftrightarrow> 1 \<le> y \<and> y \<le> 9999"

definition fromtimestamp_checked ::
  "(int \<Rightarrow> int) \<Rightarrow> pynum \<Rightarrow> py_error + naive_datetime" where
  "fromtimestamp_checked tz t =
     (let s = timestamp_seconds_double t;
          trans = tz s - tz (s - 86400)
      in if \<not> year_ok (local_year tz s) then Inl ValueError
         else if \<not> year_ok (local_year tz (s - 86400)) then Inl ValueError
         else if trans < 0 \<and> \<not> year_ok (local_year tz (s + trans)) then Inl ValueError
         else Inr (fromtimestamp tz (PyInt s)))"

text \<open>
  The loop and the body of the method with the failures of the library calls: the
  addition \<^verbatim>\<open>start + i * step\<close> and \<^verbatim>\<open>datetime.fromtimestamp\<close> inside
  \<^verbatim>\<open>BasicSolarYieldFunc\<close>. \<open>start\<close> and \<open>end\<close> are datetimes, so they are
  meant to satisfy \<open>valid_datetime\<close>. The number of steps is taken from the rounded quotient.
\<close>

fun yields_loop_checked ::
  "(int \<Rightarrow> int) \<Rightarrow> datetime \<Rightarrow> int list \<Rightarrow> DBPredictedYield list \<Rightarrow> rng
     \<Rightarrow> py_error + DBPredictedYield list \<times> rng" where
  "yields_loop_checked tz start [] yields g = Inr (yields, g)"
| "yields_loop_checked tz start (i # is) yields g =
     (let time = start + i * step
      in if \<not> valid_datetime time then Inl OverflowError
         else (case fromtimestamp_checked tz (timestamp_double time) of
                 Inl e \<Rightarrow> Inl e
               | Inr local \<Rightarrow>
                   (let (y, g') = BasicSolarYieldFunc tz (timestamp_double time) 10000 g
                    in yields_loop_checked tz start is
                         (yields @ [\<lparr>TimeUnix = timestamp_double time,
                                     YieldKW = py_int (FakeYield.YieldKW y),
                                     ErrLow = py_int (FakeYield.ErrLow y),
                                     ErrHigh = py_int (FakeYield.ErrHigh y)\<rparr>]) g')))"

definition yields_for_window_checked ::
  "(int \<Rightarrow> int) \<Rightarrow> datetime \<Rightarrow> datetime \<Rightarrow> rng
     \<Rightarrow> py_error + DBPredictedYield list \<times> rng" where
  "yields_for_window_checked tz start end g =
     (let numSteps = py_int (timedelta_truediv_double (end - start) step)
      in yields_loop_checked tz start (py_range numSteps) [] g)"

subsection \<open>Vocabulary of the statements\<close>

text \<open>The seconds since the epoch of an instant, as a real number.\<close>

definition epoch_seconds :: "datetime \<Rightarrow> real" where
  "epoch_seconds d = of_int d / 1000000"

text \<open>The error band of an output record brackets its point value.\<close>

definition band_ok :: "DBPredictedYield \<Rightarrow> bool" where
  "band_ok r \<longleftrightarrow> 0 \<le> ErrLow r \<and> ErrLow r \<le> YieldKW r \<and> YieldKW r \<le> ErrHigh r"

text \<open>Concrete environments: two time zones with a fixed offset and a constant random source.\<close>

definition utc :: "int \<Rightarrow> int" where
  "utc t = 0"

definition ist :: "int \<Rightarrow> int" where
  "ist t = 19800"

definition half_draws :: rng where
  "half_draws n = 1 / 2"

text \<open>A random source whose first draw is \<open>0.390625\<close> and whose later draws are all
  \<open>1 - 2\<^sup>-\<^sup>5\<^sup>3\<close>, the largest double below 1.\<close>

definition edge_draws :: rng where
  "edge_draws n = (if n = 0 then 25 / 64 else 9007199254740991 / 9007199254740992)"

section \<open>Auxiliary facts\<close>

subsection \<open>Conversions\<close>

lemma py_int_mono: "x \<le> y \<Longrightarrow> py_int x \<le> py_int y"
proof -
  assume xy: "x \<le> y"
  have a: "\<lfloor>x\<rfloor> \<le> \<lfloor>y\<rfloor>" using xy by (rule floor_mono)
  have b: "\<lceil>x\<rceil> \<le> \<lceil>y\<rceil>" using xy by (rule ceiling_mono)
  have c: "x < 0 \<Longrightarrow> 0 \<le> y \<Longrightarrow> \<lceil>x\<rceil> \<le> \<lfloor>y\<rfloor>"
  proof -
    assume "x < 0" "0 \<le> y"
    then have "\<lceil>x\<rceil> \<le> 0" "0 \<le> \<lfloor>y\<rfloor>" by simp_all
    then show ?thesis by linarith
  qed
  show ?thesis unfolding py_int_def using a b c xy by auto
qed

lemma py_int_nonneg: "0 \<le> x \<Longrightarrow> 0 \<le> py_int x"
  by (simp add: py_int_def)

lemma py_int_of_int: "py_int (of_int k) = k"
  by (simp add: py_int_def)

subsection \<open>The curve and its samples\<close>

lemma basefunc_nonneg: "0 \<le> basefunc time"
  by (simp add: basefunc_def Let_def)

lemma basefunc_le_one: "basefunc time \<le> 1"
proof -
  let ?b = "max 0 (sin (scaleX * hourX time + translateX) + translateY time)"
  have s: "sin (scaleX * hourX time + translateX) \<le> 1" by simp
  have t: "translateY time \<le> 1 / 2"
    unfolding translateY_def using sin_le_one [of "pi / 6 * real_of_int (month time) + translateX"] by linarith
  have "?b \<le> 15 / 10" using s t by linarith
  moreover have "0 \<le> ?b" by simp
  ultimately have "?b ^ 4 \<le> (15 / 10) ^ 4" by (rule power_mono)
  then show ?thesis by (simp add: basefunc_def Let_def)
qed

lemma noise_eq: "noise time r = r / 20 + 97 / 100"
  by (simp add: noise_def Let_def)

lemma BSYF_YieldKW:
  "FakeYield.YieldKW (fst (BasicSolarYieldFunc tz t sf g)) =
     basefunc (fromtimestamp tz t) * noise (fromtimestamp tz t) (g 0) * of_int sf"
  by (simp add: BasicSolarYieldFunc_def Let_def random_random_def split: prod.splits)

lemma BSYF_ErrLow:
  "FakeYield.ErrLow (fst (BasicSolarYieldFunc tz t sf g)) =
     (let output = FakeYield.YieldKW (fst (BasicSolarYieldFunc tz t sf g))
      in if 0 < output then output - (g 1 * output / 10) else 0)"
  by (simp add: BasicSolarYieldFunc_def Let_def random_random_def split: prod.splits)

lemma BSYF_ErrHigh:
  "FakeYield.ErrHigh (fst (BasicSolarYieldFunc tz t sf g)) =
     (let output = FakeYield.YieldKW (fst (BasicSolarYieldFunc tz t sf g))
      in if 0 < output then output + (g 2 * output / 10) else 0)"
  by (simp add: BasicSolarYieldFunc_def Let_def random_random_def numeral_2_eq_2 split: prod.splits)

lemma BSYF_rng:
  "unit_draws g \<Longrightarrow> unit_draws (snd (BasicSolarYieldFunc tz t sf g))"
  by (simp add: BasicSolarYieldFunc_def Let_def random_random_def unit_draws_def split: prod.splits)

lemma sin_day_midnight: "sin (scaleX * (of_int d * 24) + translateX) = - 1"
proof -
  have "scaleX * (of_int d * 24) + translateX = 2 * pi * of_int d - pi / 2"
    by (simp add: scaleX_def translateX_def)
  then show ?thesis by (simp add: sin_diff)
qed

lemma sin_day_noon: "sin (scaleX * (of_int d * 24 + 12) + translateX) = 1"
proof -
  have "scaleX * (of_int d * 24 + 12) + translateX = 2 * pi * of_int d + pi / 2"
    by (simp add: scaleX_def translateX_def algebra_simps)
  then show ?thesis by (simp add: sin_add)
qed

lemma translateY_bounds: "- (1 / 2) \<le> translateY time \<and> translateY time \<le> 1 / 2"
  unfolding translateY_def
  using sin_le_one [of "pi / 6 * real_of_int (month time) + translateX"]
    sin_ge_minus_one [of "pi / 6 * real_of_int (month time) + translateX"]
  by linarith

lemma basefunc_midnight:
  assumes "hour time = 0" "minute time = 0" "second time = 0"
  shows "basefunc time = 0"
proof -
  have h: "hourX time = of_int (day time) * 24" using assms by (simp add: hourX_def)
  have "sin (scaleX * hourX time + translateX) + translateY time \<le> 0"
    using translateY_bounds [of time] by (simp add: h sin_day_midnight)
  then show ?thesis by (simp add: basefunc_def Let_def max_def)
qed

lemma basefunc_noon:
  assumes "hour time = 12" "minute time = 0" "second time = 0"
  shows "0 < basefunc time"
proof -
  have h: "hourX time = of_int (day time) * 24 + 12" using assms by (simp add: hourX_def)
  have "0 < sin (scaleX * hourX time + translateX) + translateY time"
    using translateY_bounds [of time] by (simp add: h sin_day_noon)
  then show ?thesis by (simp add: basefunc_def Let_def max_def)
qed

subsection \<open>Samples and the loop\<close>

lemma yields_loop_TimeUnix:
  "map TimeUnix (fst (yields_loop tz start is ys g)) =
     map TimeUnix ys @ map (\<lambda>i. timestamp (start + i * step)) is"
  by (induction "is" arbitrary: ys g) (simp_all add: Let_def split: prod.splits)

lemma err_band:
  fixes out r :: real
  assumes "0 < out" "0 \<le> r" "r \<le> 1"
  shows "9 / 10 * out \<le> out - (r * out / 10) \<and> out - (r * out / 10) \<le> out
    \<and> out \<le> out + (r * out / 10) \<and> out + (r * out / 10) \<le> 11 / 10 * out"
proof -
  have a: "r * out \<le> 1 * out" using assms by (intro mult_right_mono) simp_all
  have b: "0 \<le> r * out" using assms by simp
  show ?thesis using a b by simp
qed

lemma BSYF_YieldKW_nonneg:
  assumes "unit_draws g" "0 \<le> sf"
  shows "0 \<le> FakeYield.YieldKW (fst (BasicSolarYieldFunc tz t sf g))"
proof -
  have "0 \<le> g 0" using assms(1) by (simp add: unit_draws_def)
  then have "0 \<le> noise (fromtimestamp tz t) (g 0)" by (simp add: noise_eq)
  then show ?thesis using assms(2) basefunc_nonneg [of "fromtimestamp tz t"]
    by (simp add: BSYF_YieldKW)
qed

lemma BSYF_band:
  assumes "unit_draws g" "0 \<le> sf"
  shows "0 \<le> FakeYield.ErrLow (fst (BasicSolarYieldFunc tz t sf g))
    \<and> FakeYield.ErrLow (fst (BasicSolarYieldFunc tz t sf g)) \<le> FakeYield.YieldKW (fst (BasicSolarYieldFunc tz t sf g))
    \<and> FakeYield.YieldKW (fst (BasicSolarYieldFunc tz t sf g)) \<le> FakeYield.ErrHigh (fst (BasicSolarYieldFunc tz t sf g))"
proof (cases "0 < FakeYield.YieldKW (fst (BasicSolarYieldFunc tz t sf g))")
  case True
  have r1: "0 \<le> g 1 \<and> g 1 \<le> 1" and r2: "0 \<le> g 2 \<and> g 2 \<le> 1"
    using assms(1) by (simp_all add: unit_draws_def)
  from err_band [OF True] r1 r2 True show ?thesis
    by (simp add: BSYF_ErrLow BSYF_ErrHigh Let_def)
next
  case False
  with BSYF_YieldKW_nonneg [OF assms, of tz t] show ?thesis
    by (simp add: BSYF_ErrLow BSYF_ErrHigh Let_def)
qed

lemma yields_loop_band:
  "\<forall>r\<in>set ys. band_ok r \<Longrightarrow> unit_draws g \<Longrightarrow>
     \<forall>r\<in>set (fst (yields_loop tz start is ys g)). band_ok r"
proof (induction "is" arbitrary: ys g)
  case Nil
  then show ?case by simp
next
  case (Cons i "is")
  let ?t = "timestamp (start + i * step)"
  let ?y = "fst (BasicSolarYieldFunc tz ?t 10000 g)"
  let ?g = "snd (BasicSolarYieldFunc tz ?t 10000 g)"
  let ?r = "\<lparr>TimeUnix = ?t, YieldKW = py_int (FakeYield.YieldKW ?y),
              ErrLow = py_int (FakeYield.ErrLow ?y), ErrHigh = py_int (FakeYield.ErrHigh ?y)\<rparr>"
  have b: "0 \<le> FakeYield.ErrLow ?y \<and> FakeYield.ErrLow ?y \<le> FakeYield.YieldKW ?y
      \<and> FakeYield.YieldKW ?y \<le> FakeYield.ErrHigh ?y"
    using BSYF_band [OF Cons.prems(2), of 10000 tz ?t] by simp
  then have "band_ok ?r"
    using py_int_mono py_int_nonneg by (simp add: band_ok_def)
  with Cons.prems(1) have inv: "\<forall>r\<in>set (ys @ [?r]). band_ok r" by simp
  have g: "unit_draws ?g" using Cons.prems(2) by (rule BSYF_rng)
  have "yields_loop tz start (i # is) ys g = yields_loop tz start is (ys @ [?r]) ?g"
    by (simp add: Let_def split: prod.splits)
  with Cons.IH [OF inv g] show ?case by simp
qed

subsection \<open>The window\<close>

lemma replace_midnight_shift:
  "replace_midnight (d + timedelta_days k) = replace_midnight d + timedelta_days k"
  by (simp add: replace_midnight_def timedelta_days_def)

lemma replace_midnight_mono: "a \<le> b \<Longrightarrow> replace_midnight a \<le> replace_midnight b"
proof -
  assume "a \<le> b"
  then have "a div 86400000000 \<le> b div 86400000000" by (rule zdiv_mono1) simp
  moreover have "replace_midnight x = 86400000000 * (x div 86400000000)" for x
    by (simp add: replace_midnight_def minus_mod_eq_mult_div)
  ultimately show ?thesis by simp
qed

lemma replace_midnight_steps: "\<exists>k. replace_midnight d = k * (288 * step)"
proof -
  have "replace_midnight d = (d div 86400000000) * (288 * step)"
    by (simp add: replace_midnight_def minus_mod_eq_mult_div step_def timedelta_minutes_def)
  then show ?thesis ..
qed

lemma getWindow_shape:
  assumes "now1 \<le> now2" "getWindow now1 now2 = (start, end)"
  shows "\<exists>m. 1152 \<le> m \<and> end - start = m * step"
proof -
  have s: "start = replace_midnight now1 - timedelta_days 2"
    using assms(2) replace_midnight_shift [of now1 "- 2"]
    by (simp add: getWindow_def Let_def timedelta_days_def)
  have e: "end = replace_midnight now2 + timedelta_days 2"
    using assms(2) replace_midnight_shift [of now2 2]
    by (simp add: getWindow_def Let_def)
  obtain k1 where k1: "replace_midnight now1 = k1 * (288 * step)"
    using replace_midnight_steps by blast
  obtain k2 where k2: "replace_midnight now2 = k2 * (288 * step)"
    using replace_midnight_steps by blast
  have "k1 * (288 * step) \<le> k2 * (288 * step)"
    using replace_midnight_mono [OF assms(1)] k1 k2 by simp
  then have le: "k1 \<le> k2" by (simp add: step_def timedelta_minutes_def)
  have "end - start = ((k2 - k1) * 288 + 1152) * step"
    by (simp add: s e k1 k2 timedelta_days_def step_def timedelta_minutes_def algebra_simps)
  moreover have "1152 \<le> (k2 - k1) * 288 + 1152" using le by simp
  ultimately show ?thesis by blast
qed

lemma numSteps_multiple: "py_int (timedelta_truediv (m * step) step) = m"
proof -
  have "timedelta_truediv (m * step) step = of_int m"
    by (simp add: timedelta_truediv_def step_def timedelta_minutes_def)
  then show ?thesis by (simp add: py_int_of_int)
qed

lemma unit_draws_half: "unit_draws half_draws"
  by (simp add: unit_draws_def half_draws_def)

subsection \<open>Concrete inputs\<close>

lemma civil_19712: "civil_from_days 19712 = (2023, 12, 21)"
  unfolding civil_from_days_def Let_def by simp

lemma civil_0: "civil_from_days 0 = (1970, 1, 1)"
  unfolding civil_from_days_def Let_def by simp

lemma local_midnight_ist:
  "fromtimestamp ist (PyInt 1703097000) =
     \<lparr>year = 2023, month = 12, day = 21, hour = 0, minute = 0, second = 0\<rparr>"
  unfolding fromtimestamp_def Let_def ist_def by (simp add: civil_19712)

lemma local_noon_ist:
  "fromtimestamp ist (PyInt 1703140200) =
     \<lparr>year = 2023, month = 12, day = 21, hour = 12, minute = 0, second = 0\<rparr>"
  unfolding fromtimestamp_def Let_def ist_def by (simp add: civil_19712)

lemma epoch_midnight_utc:
  "fromtimestamp utc (PyInt 0) =
     \<lparr>year = 1970, month = 1, day = 1, hour = 0, minute = 0, second = 0\<rparr>"
  unfolding fromtimestamp_def Let_def utc_def by (simp add: civil_0)

lemma noon_ist_positive:
  "0 < FakeYield.YieldKW (fst (BasicSolarYieldFunc ist (PyInt 1703140200) 10000 half_draws))"
proof -
  have "0 < basefunc (fromtimestamp ist (PyInt 1703140200))"
    by (rule basefunc_noon) (simp_all add: local_noon_ist)
  then show ?thesis by (simp add: BSYF_YieldKW noise_eq half_draws_def)
qed

lemma midnight_utc_zero:
  "FakeYield.YieldKW (fst (BasicSolarYieldFunc utc (PyInt 0) 10000 half_draws)) = 0"
proof -
  have "basefunc (fromtimestamp utc (PyInt 0)) = 0"
    by (rule basefunc_midnight) (simp_all add: epoch_midnight_utc)
  then show ?thesis by (simp add: BSYF_YieldKW)
qed

subsection \<open>Timestamps of the series\<close>

lemma num_val_timestamp: "num_val (timestamp d) = epoch_seconds d"
  by (simp add: timestamp_def epoch_seconds_def)

lemma epoch_seconds_step:
  "epoch_seconds (start + int i * step) = epoch_seconds start + real i * 300"
  by (simp add: epoch_seconds_def step_def timedelta_minutes_def add_divide_distrib)

lemma yields_for_window_TimeUnix:
  "map TimeUnix (fst (yields_for_window tz start end g)) =
     map (\<lambda>i. timestamp (start + i * step))
       (py_range (py_int (timedelta_truediv (end - start) step)))"
  by (simp add: yields_for_window_def Let_def yields_loop_TimeUnix)

lemma series_TimeUnix:
  "map TimeUnix (fst (get_predicted_solar_yields_for_location tz now1 now2 location g)) =
     map (\<lambda>i. timestamp (fst (getWindow now1 now2) + i * step))
       (py_range (py_int (timedelta_truediv
          (snd (getWindow now1 now2) - fst (getWindow now1 now2)) step)))"
  by (simp add: get_predicted_solar_yields_for_location_def yields_for_window_TimeUnix
      split: prod.splits)

lemma series_nth:
  assumes "getWindow now1 now2 = (start, end)" and "end - start = m * step"
  shows "length (fst (get_predicted_solar_yields_for_location tz now1 now2 location g)) = nat m"
    and "i < nat m \<Longrightarrow>
      TimeUnix (fst (get_predicted_solar_yields_for_location tz now1 now2 location g) ! i) =
        timestamp (start + int i * step)"
proof -
  let ?ys = "fst (get_predicted_solar_yields_for_location tz now1 now2 location g)"
  have m: "map TimeUnix ?ys = map (\<lambda>i. timestamp (start + i * step)) (py_range m)"
    using assms by (simp add: series_TimeUnix numSteps_multiple)
  have "length (map TimeUnix ?ys) = nat m"
    unfolding m by (simp add: py_range_def)
  then show len: "length ?ys = nat m" by simp
  assume i: "i < nat m"
  then have "TimeUnix (?ys ! i) = map TimeUnix ?ys ! i" using len by simp
  also have "\<dots> = timestamp (start + int i * step)"
    unfolding m using i by (simp add: py_range_def)
  finally show "TimeUnix (?ys ! i) = timestamp (start + int i * step)" .
qed

lemma window_example:
  "getWindow 1730000000000000 1730000000000000 = (1729814400000000, 1730160000000000)"
  by (simp add: getWindow_def replace_midnight_def timedelta_days_def Let_def)

lemma window_example_steps: "(1730160000000000::int) - 1729814400000000 = 1152 * step"
  by (simp add: step_def timedelta_minutes_def)

lemma series_TimeUnix_float:
  assumes "r \<in> set (fst (get_predicted_solar_yields_for_location tz now1 now2 location g))"
  shows "\<not> is_PyIntTyped (TimeUnix r)"
proof -
  from assms have "TimeUnix r \<in>
      set (map TimeUnix (fst (get_predicted_solar_yields_for_location tz now1 now2 location g)))"
    by simp
  then obtain i where "TimeUnix r = timestamp (fst (getWindow now1 now2) + i * step)"
    unfolding series_TimeUnix by auto
  then show ?thesis by (simp add: timestamp_def)
qed

subsection \<open>Rounding to a double\<close>

lemma py_round_of_int: "py_round (of_int k) = k"
  by (simp add: py_round_def Let_def)

lemma py_round_close: "\<bar>of_int (py_round y) - y\<bar> \<le> 1 / 2"
  unfolding py_round_def Let_def by (auto simp: abs_le_iff)

lemma py_round_nonpos: "y \<le> 0 \<Longrightarrow> py_round y \<le> 0"
proof -
  assume y: "y \<le> 0"
  show ?thesis
  proof (cases "y = of_int \<lfloor>y\<rfloor>")
    case True
    then have "py_round y = \<lfloor>y\<rfloor>" by (simp add: py_round_def Let_def)
    then show ?thesis using y by simp
  next
    case False
    then have "of_int \<lfloor>y\<rfloor> < y" by (metis of_int_floor_le order_less_le)
    then have "\<lfloor>y\<rfloor> < 0" using y by linarith
    then show ?thesis by (simp add: py_round_def Let_def)
  qed
qed

lemma floor_log2_eq:
  assumes "2 powr of_int e \<le> x" "x < 2 powr of_int (e + 1)"
  shows "\<lfloor>log 2 x\<rfloor> = e"
proof -
  have x: "0 < x" using assms(1) powr_gt_zero [of 2 "of_int e"] by linarith
  have "of_int e \<le> log 2 x" using assms(1) x by (simp add: le_log_iff)
  moreover have "log 2 x < of_int (e + 1)" using assms(2) x by (simp add: log_less_iff)
  ultimately show ?thesis by (simp add: floor_eq_iff)
qed

lemma round_double_at:
  assumes "2 powr of_int e \<le> \<bar>x\<bar>" "\<bar>x\<bar> < 2 powr of_int (e + 1)" "- 1022 \<le> e"
  shows "round_double x = of_int (py_round (x / 2 powr of_int (e - 52))) * 2 powr of_int (e - 52)"
proof -
  have "x \<noteq> 0" using assms(1) by (smt (verit) powr_gt_zero)
  moreover have "double_exponent x = e"
    using floor_log2_eq [OF assms(1,2)] assms(3) by (simp add: double_exponent_def)
  ultimately show ?thesis by (simp add: round_double_def Let_def)
qed

lemma double_exponent_le:
  assumes "x \<noteq> 0" "\<bar>x\<bar> < 2 ^ 53"
  shows "double_exponent x \<le> 52"
proof -
  have "log 2 \<bar>x\<bar> < 53"
    using assms by (simp add: log_less_iff)
  then have "\<lfloor>log 2 \<bar>x\<bar>\<rfloor> \<le> 52" by (simp add: floor_le_iff)
  then show ?thesis by (simp add: double_exponent_def)
qed

lemma round_double_close:
  assumes "\<bar>x\<bar> < 2 ^ 53"
  shows "\<bar>round_double x - x\<bar> \<le> 1 / 2"
proof (cases "x = 0")
  case True
  then show ?thesis by (simp add: round_double_def)
next
  case False
  define u :: real where "u = 2 powr of_int (double_exponent x - 52)"
  have u0: "0 < u" by (simp add: u_def)
  have "of_int (double_exponent x - 52) \<le> (0::real)"
    using double_exponent_le [OF False assms] by simp
  then have "u \<le> 2 powr 0" unfolding u_def by (intro powr_mono) simp_all
  then have u1: "u \<le> 1" by simp
  have r: "round_double x = of_int (py_round (x / u)) * u"
    using False by (simp add: round_double_def Let_def u_def)
  have "round_double x - x = (of_int (py_round (x / u)) - x / u) * u"
    using u0 by (simp add: r algebra_simps)
  then have "\<bar>round_double x - x\<bar> = \<bar>of_int (py_round (x / u)) - x / u\<bar> * u"
    using u0 by (simp add: abs_mult)
  also have "\<dots> \<le> 1 / 2 * u"
    using py_round_close [of "x / u"] u0 by (intro mult_right_mono) simp_all
  also have "\<dots> \<le> 1 / 2" using u1 by simp
  finally show ?thesis .
qed

lemma round_double_nonpos:
  assumes "x \<le> 0"
  shows "round_double x \<le> 0"
proof (cases "x = 0")
  case True
  then show ?thesis by (simp add: round_double_def)
next
  case False
  define u :: real where "u = 2 powr of_int (double_exponent x - 52)"
  have u0: "0 < u" by (simp add: u_def)
  have "x / u \<le> 0" using assms u0 by (simp add: divide_nonpos_pos)
  then have "py_round (x / u) \<le> 0" by (rule py_round_nonpos)
  then have "of_int (py_round (x / u)) * u \<le> 0"
    using u0 by (simp add: mult_le_0_iff)
  then show ?thesis using False by (simp add: round_double_def Let_def u_def)
qed

lemma round_double_of_int:
  assumes "\<bar>k\<bar> < 2 ^ 53"
  shows "round_double (of_int k) = of_int k"
proof (cases "k = 0")
  case True
  then show ?thesis by (simp add: round_double_def)
next
  case False
  define x :: real where "x = of_int k"
  have x0: "x \<noteq> 0" using False by (simp add: x_def)
  have "\<bar>x\<bar> < 2 ^ 53"
  proof -
    have "real_of_int \<bar>k\<bar> < real_of_int (2 ^ 53)" using assms by (simp only: of_int_less_iff)
    then show ?thesis by (simp add: x_def)
  qed
  then have hi: "double_exponent x \<le> 52" using x0 by (intro double_exponent_le)
  have "1 \<le> \<bar>x\<bar>" using False unfolding x_def by (metis of_int_abs of_int_1_le_iff zero_less_abs_iff int_one_le_iff_zero_less)
  then have "0 \<le> log 2 \<bar>x\<bar>" by simp
  then have lo: "0 \<le> double_exponent x" by (simp add: double_exponent_def)
  define n where "n = nat (52 - double_exponent x)"
  have "real_of_int (double_exponent x - 52) = - real n" using hi by (simp add: n_def)
  then have "(2::real) powr of_int (double_exponent x - 52) = 1 / 2 ^ n"
    by (simp only: powr_minus powr_realpow zero_less_numeral inverse_eq_divide)
  then have r: "round_double x = of_int (py_round (x / (1 / 2 ^ n))) * (1 / 2 ^ n)"
    using x0 by (simp add: round_double_def Let_def)
  have "x / (1 / 2 ^ n) = of_int (k * 2 ^ n)" by (simp add: x_def)
  then have "py_round (x / (1 / 2 ^ n)) = k * 2 ^ n" by (simp only: py_round_of_int)
  then show ?thesis unfolding x_def [symmetric] r by (simp add: x_def)
qed

subsection \<open>The years of the calendar\<close>

lemma div_bounds:
  fixes a :: int
  assumes "0 < b" "q = a div b"
  shows "b * q \<le> a \<and> a < b * q + b"
proof -
  define r where "r = a mod b"
  have "a = b * q + r" unfolding r_def assms(2) by simp
  moreover have "0 \<le> r" "r < b" unfolding r_def using assms(1) by simp_all
  ultimately show ?thesis by simp
qed

lemma yoe_range:
  fixes doe :: int
  assumes doe: "0 \<le> doe" "doe \<le> 146096"
  shows "0 \<le> (doe - doe div 1460 + doe div 36524 - doe div 146096) div 365
    \<and> (doe - doe div 1460 + doe div 36524 - doe div 146096) div 365 \<le> 399"
proof -
  define q1 where "q1 = doe div 1460"
  define q2 where "q2 = doe div 36524"
  define q3 where "q3 = doe div 146096"
  define n where "n = doe - q1 + q2 - q3"
  define k where "k = n div 365"
  have b1: "1460 * q1 \<le> doe \<and> doe < 1460 * q1 + 1460" by (rule div_bounds) (simp_all add: q1_def)
  have b2: "36524 * q2 \<le> doe \<and> doe < 36524 * q2 + 36524" by (rule div_bounds) (simp_all add: q2_def)
  have b3: "146096 * q3 \<le> doe \<and> doe < 146096 * q3 + 146096" by (rule div_bounds) (simp_all add: q3_def)
  have bk: "365 * k \<le> n \<and> n < 365 * k + 365" by (rule div_bounds) (simp_all add: k_def)
  have q3: "q3 = 0 \<or> (q3 = 1 \<and> doe = 146096)" using b3 doe by auto
  have q1: "0 \<le> q1" using b1 doe by simp
  have q2: "0 \<le> q2" using b2 doe by simp
  have nlo: "0 \<le> n" unfolding n_def using q3 b1 q1 q2 doe by auto
  have nhi: "n < 146000" unfolding n_def using q3 b1 b2 b3 doe by auto
  have "0 \<le> k \<and> k \<le> 399" using nlo nhi bk by simp
  then show ?thesis by (simp add: k_def n_def q1_def q2_def q3_def)
qed


lemma year_ok_if: "year_ok Y \<Longrightarrow> year_ok (Y + 1) \<Longrightarrow> year_ok (if c then Y + 1 else Y)"
  by simp

lemma civil_year_range:
  assumes "146097 \<le> z + 719468" "z + 719468 < 3506328"
  shows "year_ok (fst (civil_from_days z))"
proof -
  define era where "era = (z + 719468) div 146097"
  define doe where "doe = z + 719468 - era * 146097"
  define yoe where "yoe = (doe - doe div 1460 + doe div 36524 - doe div 146096) div 365"
  have e: "146097 * era \<le> z + 719468 \<and> z + 719468 < 146097 * era + 146097"
    by (rule div_bounds) (simp_all add: era_def)
  have era: "1 \<le> era" "era \<le> 23" using assms e by simp_all
  have doe: "0 \<le> doe" "doe \<le> 146096" using e unfolding doe_def by simp_all
  have yoe: "0 \<le> yoe" "yoe \<le> 399" using yoe_range [OF doe] unfolding yoe_def by simp_all
  have y: "year_ok (yoe + era * 400)" "year_ok (yoe + era * 400 + 1)"
    using era yoe by (simp_all add: year_ok_def)
  show ?thesis
    unfolding civil_from_days_def Let_def fst_conv
      era_def [symmetric] doe_def [symmetric] yoe_def [symmetric]
    using y by (rule year_ok_if)
qed

lemma local_year_ok:
  assumes "- 49539254400 \<le> l" "l < 240784704000"
  shows "year_ok (fst (civil_from_days (l div 86400)))"
proof -
  define d where "d = l div 86400"
  have "86400 * d \<le> l \<and> l < 86400 * d + 86400"
    by (rule div_bounds) (simp_all add: d_def)
  then have "146097 \<le> d + 719468" "d + 719468 < 3506328" using assms by linarith+
  then show ?thesis unfolding d_def [symmetric] by (rule civil_year_range)
qed

subsection \<open>The loop with the failures of the library\<close>

lemma py_int_close: "\<bar>of_int (py_int x) - x\<bar> < 1"
  unfolding py_int_def by (auto simp: abs_less_iff) linarith+

lemma timestamp_seconds_double_close:
  "x - 3 \<le> of_int (timestamp_seconds_double (PyFloat x))
   \<and> of_int (timestamp_seconds_double (PyFloat x)) \<le> x + 3"
proof -
  define ip where "ip = py_int x"
  define fp where "fp = x - of_int ip"
  define p where "p = double_mul fp 1000000"
  define us where "us = py_round p"
  define s where "s = (ip * 1000000 + us) div 1000000"
  have fp: "\<bar>fp\<bar> < 1" using py_int_close [of x] unfolding fp_def ip_def by linarith
  then have y: "\<bar>fp * 1000000\<bar> < 1000000" by (simp add: abs_mult)
  then have "\<bar>fp * 1000000\<bar> < 2 ^ 53" by simp
  then have "\<bar>p - fp * 1000000\<bar> \<le> 1 / 2"
    unfolding p_def double_mul_def by (rule round_double_close)
  moreover have "\<bar>of_int us - p\<bar> \<le> 1 / 2" unfolding us_def by (rule py_round_close)
  ultimately have "\<bar>real_of_int us\<bar> < 1000001" using y by linarith
  then have us: "- 1000000 \<le> us" "us \<le> 1000000" by linarith+
  have d: "1000000 * s \<le> ip * 1000000 + us \<and> ip * 1000000 + us < 1000000 * s + 1000000"
    by (rule div_bounds) (simp_all add: s_def)
  have "ip - 2 \<le> s \<and> s \<le> ip + 1" using d us by linarith
  then have "of_int ip - 2 \<le> (of_int s :: real) \<and> (of_int s :: real) \<le> of_int ip + 1"
    by (metis of_int_le_iff of_int_diff of_int_add of_int_numeral of_int_1)
  moreover have "\<bar>of_int ip - x\<bar> < 1" unfolding ip_def by (rule py_int_close)
  ultimately have "x - 3 \<le> of_int s \<and> of_int s \<le> x + 3" by linarith
  moreover have "timestamp_seconds_double (PyFloat x) = s"
    by (simp add: Let_def s_def us_def p_def fp_def ip_def)
  ultimately show ?thesis by simp
qed

lemma timestamp_double_seconds:
  assumes "- 49538000000000000 \<le> time" "time \<le> 240784000000000000"
  shows "- 49538000004 \<le> timestamp_seconds_double (timestamp_double time)
    \<and> timestamp_seconds_double (timestamp_double time) \<le> 240784000004"
proof -
  define T :: real where "T = of_int time / 1000000"
  define x where "x = round_double T"
  have T: "- 49538000000 \<le> T" "T \<le> 240784000000"
    using assms unfolding T_def by (simp_all add: field_simps)
  then have "\<bar>T\<bar> < 2 ^ 53" by simp
  then have "\<bar>x - T\<bar> \<le> 1 / 2" unfolding x_def by (rule round_double_close)
  with timestamp_seconds_double_close [of x] T
  have "- 49538000004 \<le> real_of_int (timestamp_seconds_double (PyFloat x))"
    "real_of_int (timestamp_seconds_double (PyFloat x)) \<le> 240784000004"
    by linarith+
  then have "- 49538000004 \<le> timestamp_seconds_double (PyFloat x)
      \<and> timestamp_seconds_double (PyFloat x) \<le> 240784000004"
    by linarith
  then show ?thesis by (simp add: timestamp_double_def x_def T_def)
qed

lemma fromtimestamp_checked_ok:
  assumes "- 49538000000000000 \<le> time" "time \<le> 240784000000000000"
    and tz: "\<forall>s. \<bar>tz s\<bar> \<le> 86400"
  shows "\<exists>l. fromtimestamp_checked tz (timestamp_double time) = Inr l"
proof -
  define s where "s = timestamp_seconds_double (timestamp_double time)"
  define trans where "trans = tz s - tz (s - 86400)"
  have s: "- 49538000004 \<le> s" "s \<le> 240784000004"
    using timestamp_double_seconds [OF assms(1,2)] by (simp_all add: s_def)
  have t: "- 172800 \<le> trans" "trans \<le> 172800"
    using tz [rule_format, of s] tz [rule_format, of "s - 86400"] unfolding trans_def
    by linarith+
  have ok: "year_ok (local_year tz s')" if "s - 172800 \<le> s'" "s' \<le> s" for s'
    unfolding local_year_def
    using that s tz [rule_format, of s'] by (intro local_year_ok) linarith+
  have "year_ok (local_year tz s)" by (rule ok) simp_all
  moreover have "year_ok (local_year tz (s - 86400))" by (rule ok) simp_all
  moreover have "trans < 0 \<Longrightarrow> year_ok (local_year tz (s + trans))"
    using t by (intro ok) linarith+
  ultimately show ?thesis
    by (simp add: fromtimestamp_checked_def Let_def s_def [symmetric] trans_def [symmetric])
qed

lemma yields_loop_checked_ok:
  assumes "\<forall>i\<in>set is. - 49538000000000000 \<le> start + i * step
      \<and> start + i * step \<le> 240784000000000000"
    and tz: "\<forall>s. \<bar>tz s\<bar> \<le> 86400"
  shows "\<exists>ys' g'. yields_loop_checked tz start is ys g = Inr (ys', g')"
  using assms(1)
proof (induction "is" arbitrary: ys g)
  case Nil
  then show ?case by simp
next
  case (Cons i "is")
  define time where "time = start + i * step"
  have r: "- 49538000000000000 \<le> time" "time \<le> 240784000000000000"
    using Cons.prems by (simp_all add: time_def)
  then have v: "valid_datetime time" by (simp add: valid_datetime_def)
  obtain l where l: "fromtimestamp_checked tz (timestamp_double time) = Inr l"
    using fromtimestamp_checked_ok [OF r tz] by blast
  have rest: "\<forall>i\<in>set is. - 49538000000000000 \<le> start + i * step
      \<and> start + i * step \<le> 240784000000000000"
    using Cons.prems by simp
  show ?case
    using v l Cons.IH [OF rest]
    by (simp add: Let_def time_def [symmetric] split: prod.splits)
qed

lemma py_int_le: "0 < py_int y \<Longrightarrow> of_int (py_int y) \<le> y"
  by (simp add: py_int_def split: if_splits)

lemma range_within_window:
  assumes "start \<le> end" "end - start \<le> 300000000000000000"
    and "i \<in> set (py_range (py_int (timedelta_truediv_double (end - start) step)))"
  shows "0 \<le> i \<and> start + i * step \<le> end"
proof -
  define q :: real where "q = of_int (end - start) / of_int step"
  define n where "n = py_int (round_double q)"
  have i: "0 \<le> i" "i < n"
    using assms(3) by (auto simp: py_range_def n_def q_def timedelta_truediv_double_def)
  have q: "0 \<le> q" "q \<le> 1000000000"
    using assms(1,2) unfolding q_def step_def timedelta_minutes_def by (simp_all add: field_simps)
  then have "\<bar>q\<bar> < 2 ^ 53" by simp
  then have c: "\<bar>round_double q - q\<bar> \<le> 1 / 2" by (rule round_double_close)
  have "0 < n" using i by linarith
  then have "of_int n \<le> round_double q" unfolding n_def by (rule py_int_le)
  moreover have "real_of_int i + 1 \<le> of_int n" using i(2) by linarith
  ultimately have "real_of_int i \<le> q" using c by linarith
  then have "real_of_int i * 300000000 \<le> of_int (end - start)"
    unfolding q_def step_def timedelta_minutes_def by (simp add: field_simps)
  then have "i * 300000000 \<le> end - start"
    by (metis of_int_le_iff of_int_mult of_int_numeral)
  then show ?thesis using i(1) by (simp add: step_def timedelta_minutes_def)
qed

lemma degenerate_numSteps:
  assumes "end \<le> start"
  shows "py_int (timedelta_truediv_double (end - start) step) \<le> 0"
proof -
  have "real_of_int (end - start) / real_of_int step \<le> 0"
    using assms by (simp add: step_def timedelta_minutes_def)
  then have "timedelta_truediv_double (end - start) step \<le> 0"
    unfolding timedelta_truediv_double_def by (rule round_double_nonpos)
  then show ?thesis by (simp add: py_int_def ceiling_le_zero)
qed

lemma timestamp_double_whole:
  assumes "time = 1000000 * k" "\<bar>k\<bar> < 2 ^ 53"
  shows "timestamp_double time = timestamp time"
proof -
  have "real_of_int time / 1000000 = of_int k" using assms(1) by simp
  then show ?thesis
    by (simp add: timestamp_double_def timestamp_def round_double_of_int [OF assms(2)])
qed

lemma yields_loop_checked_agrees:
  assumes "\<forall>i\<in>set is. - 49538000000000000 \<le> start + i * step
      \<and> start + i * step \<le> 240784000000000000 \<and> 1000000 dvd start + i * step"
    and tz: "\<forall>s. \<bar>tz s\<bar> \<le> 86400"
  shows "yields_loop_checked tz start is ys g = Inr (yields_loop tz start is ys g)"
  using assms(1)
proof (induction "is" arbitrary: ys g)
  case Nil
  then show ?case by simp
next
  case (Cons i "is")
  define time where "time = start + i * step"
  have r: "- 49538000000000000 \<le> time" "time \<le> 240784000000000000"
    and d: "1000000 dvd time"
    using Cons.prems by (simp_all add: time_def)
  then have v: "valid_datetime time" by (simp add: valid_datetime_def)
  obtain k where k: "time = 1000000 * k" using d by (auto elim: dvdE)
  then have "\<bar>k\<bar> < 2 ^ 53" using r by simp
  with k have t: "timestamp_double time = timestamp time" by (rule timestamp_double_whole)
  obtain l where l: "fromtimestamp_checked tz (timestamp_double time) = Inr l"
    using fromtimestamp_checked_ok [OF r tz] by blast
  have rest: "\<forall>i\<in>set is. - 49538000000000000 \<le> start + i * step
      \<and> start + i * step \<le> 240784000000000000 \<and> 1000000 dvd start + i * step"
    using Cons.prems by simp
  show ?case
    using v l Cons.IH [OF rest]
    by (simp add: Let_def time_def [symmetric] t [symmetric] split: prod.splits)
qed

subsection \<open>Concrete roundings\<close>

lemma band_step_mul:
  "double_mul (9007199254740991 / 9007199254740992) (1074569002886637 / 549755813888)
     = 8596552023093095 / 4398046511104"
  unfolding double_mul_def
  by (subst round_double_at [where e = 10]) (simp_all add: powr_minus py_round_def Let_def)

lemma band_step_div:
  "double_div (8596552023093095 / 4398046511104) 10 = 1719310404618619 / 8796093022208"
  unfolding double_div_def
  by (subst round_double_at [where e = 7]) (simp_all add: powr_minus py_round_def Let_def)

lemma band_step_sub:
  "double_sub (1074569002886637 / 549755813888) (1719310404618619 / 8796093022208)
     = 3868448410391893 / 2199023255552"
  unfolding double_sub_def
  by (subst round_double_at [where e = 10]) (simp_all add: powr_minus py_round_def Let_def)

lemma band_step_add:
  "double_add (1074569002886637 / 549755813888) (1719310404618619 / 8796093022208)
     = 4728103612701203 / 2199023255552"
  unfolding double_add_def
  by (subst round_double_at [where e = 11]) (simp_all add: powr_minus py_round_def Let_def)

lemma round_double_2: "round_double 2 = 2"
  by (subst round_double_at [where e = 1]) (simp_all add: powr_minus py_round_def Let_def)

lemma round_double_year1: "round_double (- 62135596800) = - 62135596800"
  by (subst round_double_at [where e = 35]) (simp_all add: powr_minus py_round_def Let_def)

lemma civil_year1: "civil_from_days (- 719162) = (1, 1, 1)"
  unfolding civil_from_days_def Let_def by simp

lemma civil_year0: "civil_from_days (- 719163) = (0, 12, 31)"
  unfolding civil_from_days_def Let_def by simp

lemma fromtimestamp_year1:
  "fromtimestamp_checked utc (timestamp_double (- 62135596800000000)) = Inl ValueError"
proof -
  have t: "timestamp_double (- 62135596800000000) = PyFloat (- 62135596800)"
    by (simp add: timestamp_double_def round_double_year1)
  have a: "py_int (- 62135596800) = - 62135596800" by (simp add: py_int_def)
  have b: "double_mul 0 1000000 = 0" by (simp add: double_mul_def round_double_def)
  have c: "py_round 0 = 0" by (simp add: py_round_def)
  have s: "timestamp_seconds_double (PyFloat (- 62135596800)) = - 62135596800"
    by (simp add: Let_def a b c)
  show ?thesis
    unfolding t fromtimestamp_checked_def Let_def s
    by (simp add: local_year_def utc_def civil_year1 civil_year0 year_ok_def)
qed

lemma unit_draws_edge: "unit_draws edge_draws"
  by (simp add: unit_draws_def edge_draws_def)

lemma civil_19803: "civil_from_days 19803 = (2024, 3, 21)"
  unfolding civil_from_days_def Let_def by simp

lemma equinox_noon_utc:
  "fromtimestamp utc (PyInt 1711022400) =
     \<lparr>year = 2024, month = 3, day = 21, hour = 12, minute = 0, second = 0\<rparr>"
  unfolding fromtimestamp_def Let_def utc_def by (simp add: civil_19803)

lemma equinox_noon_yield:
  "FakeYield.YieldKW (fst (BasicSolarYieldFunc utc (PyInt 1711022400) 10000 edge_draws))
     = 52775 / 27"
proof -
  let ?time = "fromtimestamp utc (PyInt 1711022400)"
  have h: "hourX ?time = of_int 21 * 24 + 12" by (simp add: equinox_noon_utc hourX_def)
  have s: "sin (scaleX * hourX ?time + translateX) = 1"
    unfolding h by (rule sin_day_noon)
  have t: "translateY ?time = 0"
    by (simp add: equinox_noon_utc translateY_def translateX_def)
  have "basefunc ?time = 16 / 81" by (simp add: basefunc_def Let_def s t power_divide)
  then show ?thesis by (simp add: BSYF_YieldKW noise_eq edge_draws_def)
qed

lemma equinox_noon_double: "round_double (52775 / 27) = 1074569002886637 / 549755813888"
  by (subst round_double_at [where e = 10]) (simp_all add: powr_minus py_round_def Let_def)

section \<open>The yield curve\<close>



text \<open>
  C4, as amended. Over exact real arithmetic (the floats of the code read as real
  numbers): for every input on which \<open>BasicSolarYieldFunc\<close> returns \<open>YieldKW > 0\<close>, and
  for all random draws in the unit interval, the sample satisfies
  \<open>0.9 * YieldKW \<le> ErrLow \<le> YieldKW \<le> ErrHigh \<le> 1.1 * YieldKW\<close>.
\<close>

theorem error_band_slack:
  assumes "unit_draws g"
    and "0 < FakeYield.YieldKW (fst (BasicSolarYieldFunc tz timeUnix scaleFactor g))"
  shows "9 / 10 * FakeYield.YieldKW (fst (BasicSolarYieldFunc tz timeUnix scaleFactor g))
        \<le> FakeYield.ErrLow (fst (BasicSolarYieldFunc tz timeUnix scaleFactor g))
    \<and> FakeYield.ErrLow (fst (BasicSolarYieldFunc tz timeUnix scaleFactor g))
        \<le> FakeYield.YieldKW (fst (BasicSolarYieldFunc tz timeUnix scaleFactor g))
    \<and> FakeYield.YieldKW (fst (BasicSolarYieldFunc tz timeUnix scaleFactor g))
        \<le> FakeYield.ErrHigh (fst (BasicSolarYieldFunc tz timeUnix scaleFactor g))
    \<and> FakeYield.ErrHigh (fst (BasicSolarYieldFunc tz timeUnix scaleFactor g))
        \<le> 11 / 10 * FakeYield.YieldKW (fst (BasicSolarYieldFunc tz timeUnix scaleFactor g))"
proof -
  have r1: "0 \<le> g 1" "g 1 \<le> 1" and r2: "0 \<le> g 2" "g 2 \<le> 1"
    using assms(1) by (simp_all add: unit_draws_def)
  from err_band [OF assms(2) r1] err_band [OF assms(2) r2] assms(2) show ?thesis
    by (simp add: BSYF_ErrLow BSYF_ErrHigh Let_def)
qed

theorem error_band_slack_witness:
  "unit_draws half_draws
   \<and> 0 < FakeYield.YieldKW (fst (BasicSolarYieldFunc ist (PyInt 1703140200) 10000 half_draws))
   \<and> 9 / 10 * FakeYield.YieldKW (fst (BasicSolarYieldFunc ist (PyInt 1703140200) 10000 half_draws))
        \<le> FakeYield.ErrLow (fst (BasicSolarYieldFunc ist (PyInt 1703140200) 10000 half_draws))
   \<and> FakeYield.ErrHigh (fst (BasicSolarYieldFunc ist (PyInt 1703140200) 10000 half_draws))
        \<le> 11 / 10 * FakeYield.YieldKW (fst (BasicSolarYieldFunc ist (PyInt 1703140200) 10000 half_draws))"
  using error_band_slack [OF unit_draws_half noon_ist_positive] unit_draws_half noon_ist_positive
  by simp

text \<open>
  On the doubles of the code the two outer bounds fail by a rounding error. Take
  \<open>timeUnix = 1711022400\<close> (noon of 21 March 2024) in a zone on UTC, the default scale
  factor and the draws \<open>0.390625\<close>, \<open>1 - 2\<^sup>-\<^sup>5\<^sup>3\<close>, \<open>1 - 2\<^sup>-\<^sup>5\<^sup>3\<close>. The exact yield is
  \<open>52775 / 27\<close>; the double nearest to it, which is also the double that line 78
  computes, is \<open>1954.6296296296296\<close>. From it lines 84 and 85 compute
  \<open>ErrLow = 1759.1666666666665\<close>, below \<open>0.9 * YieldKW\<close>, and
  \<open>ErrHigh = 2150.0925925925926\<close>, above \<open>1.1 * YieldKW\<close>.
\<close>

theorem rounded_band_counterexample:
  "round_double (FakeYield.YieldKW
       (fst (BasicSolarYieldFunc utc (PyInt 1711022400) 10000 edge_draws)))
     = 1074569002886637 / 549755813888
   \<and> FakeYield.ErrLow (error_bounds_double (1074569002886637 / 549755813888)
         (edge_draws 1) (edge_draws 2))
       < 9 / 10 * FakeYield.YieldKW (error_bounds_double (1074569002886637 / 549755813888)
         (edge_draws 1) (edge_draws 2))
   \<and> 11 / 10 * FakeYield.YieldKW (error_bounds_double (1074569002886637 / 549755813888)
         (edge_draws 1) (edge_draws 2))
       < FakeYield.ErrHigh (error_bounds_double (1074569002886637 / 549755813888)
         (edge_draws 1) (edge_draws 2))"
  by (simp add: equinox_noon_yield equinox_noon_double error_bounds_double_def edge_draws_def
      band_step_mul band_step_div band_step_sub band_step_add)

text \<open>
  C5. For every input on which \<open>BasicSolarYieldFunc\<close> returns \<open>YieldKW = 0\<close>, both
  \<open>ErrLow\<close> and \<open>ErrHigh\<close> of the sample are 0.
\<close>

theorem zero_yield_zero_errors:
  assumes "FakeYield.YieldKW (fst (BasicSolarYieldFunc tz timeUnix scaleFactor g)) = 0"
  shows "FakeYield.ErrLow (fst (BasicSolarYieldFunc tz timeUnix scaleFactor g)) = 0
    \<and> FakeYield.ErrHigh (fst (BasicSolarYieldFunc tz timeUnix scaleFactor g)) = 0"
  using assms by (simp add: BSYF_ErrLow BSYF_ErrHigh Let_def)

theorem zero_yield_zero_errors_witness:
  "FakeYield.YieldKW (fst (BasicSolarYieldFunc utc (PyInt 0) 10000 half_draws)) = 0
   \<and> FakeYield.ErrLow (fst (BasicSolarYieldFunc utc (PyInt 0) 10000 half_draws)) = 0
   \<and> FakeYield.ErrHigh (fst (BasicSolarYieldFunc utc (PyInt 0) 10000 half_draws)) = 0"
  using zero_yield_zero_errors [OF midnight_utc_zero] midnight_utc_zero by simp

text \<open>
  C6. For every \<open>timeUnix\<close> whose local calendar breakdown has hour, minute and second 0
  (a midnight timestamp), in any month, \<open>BasicSolarYieldFunc\<close> returns \<open>YieldKW = 0\<close> and
  \<open>ErrLow = ErrHigh = 0\<close>. The witness is the midnight that starts 21 December 2023 in
  a zone five and a half hours ahead of UTC.
\<close>

theorem midnight_zero_yield:
  assumes "hour (fromtimestamp tz (PyInt timeUnix)) = 0"
    and "minute (fromtimestamp tz (PyInt timeUnix)) = 0"
    and "second (fromtimestamp tz (PyInt timeUnix)) = 0"
  shows "FakeYield.YieldKW (fst (BasicSolarYieldFunc tz (PyInt timeUnix) scaleFactor g)) = 0
    \<and> FakeYield.ErrLow (fst (BasicSolarYieldFunc tz (PyInt timeUnix) scaleFactor g)) = 0
    \<and> FakeYield.ErrHigh (fst (BasicSolarYieldFunc tz (PyInt timeUnix) scaleFactor g)) = 0"
proof -
  have "basefunc (fromtimestamp tz (PyInt timeUnix)) = 0"
    using assms by (rule basefunc_midnight)
  then have "FakeYield.YieldKW (fst (BasicSolarYieldFunc tz (PyInt timeUnix) scaleFactor g)) = 0"
    by (simp add: BSYF_YieldKW)
  then show ?thesis by (simp add: BSYF_ErrLow BSYF_ErrHigh Let_def)
qed

theorem midnight_zero_yield_witness:
  "month (fromtimestamp ist (PyInt 1703097000)) = 12
   \<and> day (fromtimestamp ist (PyInt 1703097000)) = 21
   \<and> hour (fromtimestamp ist (PyInt 1703097000)) = 0
   \<and> minute (fromtimestamp ist (PyInt 1703097000)) = 0
   \<and> second (fromtimestamp ist (PyInt 1703097000)) = 0
   \<and> FakeYield.YieldKW (fst (BasicSolarYieldFunc ist (PyInt 1703097000) 10000 half_draws)) = 0
   \<and> FakeYield.ErrLow (fst (BasicSolarYieldFunc ist (PyInt 1703097000) 10000 half_draws)) = 0
   \<and> FakeYield.ErrHigh (fst (BasicSolarYieldFunc ist (PyInt 1703097000) 10000 half_draws)) = 0"
  using midnight_zero_yield [of ist 1703097000 10000 half_draws]
  by (simp add: local_midnight_ist)

text \<open>
  C10, as amended. For every input with draws in the unit interval, the factor
  \<open>sin (pi * hour)\<close> is taken at the integer hour field and is 0, so the noise multiplier
  is \<open>r / 20 + 0.97\<close> and lies in \<open>[0.97, 1.02]\<close>; the steepened base function lies in
  \<open>[0, 1]\<close>; and when \<open>scaleFactor \<ge> 0\<close> the returned \<open>YieldKW\<close> is at most
  \<open>1.02 * scaleFactor\<close>.
\<close>

theorem noise_and_yield_bounds:
  assumes "unit_draws g" and "0 \<le> scaleFactor"
  shows "sin (pi * of_int (hour (fromtimestamp tz timeUnix))) = (0::real)
    \<and> noise (fromtimestamp tz timeUnix) (fst (random_random g)) = fst (random_random g) / 20 + 97 / 100
    \<and> 97 / 100 \<le> noise (fromtimestamp tz timeUnix) (fst (random_random g))
    \<and> noise (fromtimestamp tz timeUnix) (fst (random_random g)) \<le> 102 / 100
    \<and> 0 \<le> basefunc (fromtimestamp tz timeUnix)
    \<and> basefunc (fromtimestamp tz timeUnix) \<le> 1
    \<and> FakeYield.YieldKW (fst (BasicSolarYieldFunc tz timeUnix scaleFactor g)) =
        basefunc (fromtimestamp tz timeUnix) * noise (fromtimestamp tz timeUnix) (fst (random_random g))
          * of_int scaleFactor
    \<and> FakeYield.YieldKW (fst (BasicSolarYieldFunc tz timeUnix scaleFactor g))
        \<le> 102 / 100 * of_int scaleFactor"
proof -
  let ?time = "fromtimestamp tz timeUnix"
  have r: "fst (random_random g) = g 0" by (simp add: random_random_def)
  have g0: "0 \<le> g 0" "g 0 \<le> 1" using assms(1) by (simp_all add: unit_draws_def)
  have n: "noise ?time (g 0) = g 0 / 20 + 97 / 100" by (rule noise_eq)
  have nl: "97 / 100 \<le> noise ?time (g 0)" and nu: "noise ?time (g 0) \<le> 102 / 100"
    using g0 by (simp_all add: n)
  have b0: "0 \<le> basefunc ?time" by (rule basefunc_nonneg)
  have b1: "basefunc ?time \<le> 1" by (rule basefunc_le_one)
  have "basefunc ?time * noise ?time (g 0) \<le> 1 * (102 / 100)"
    using b0 b1 nl nu by (intro mult_mono) simp_all
  moreover have "(0::real) \<le> of_int scaleFactor" using assms(2) by simp
  ultimately have "basefunc ?time * noise ?time (g 0) * of_int scaleFactor
      \<le> 1 * (102 / 100) * of_int scaleFactor"
    by (rule mult_right_mono)
  then show ?thesis using n nl nu b0 b1 by (simp add: r BSYF_YieldKW)
qed

theorem noise_and_yield_bounds_witness:
  "unit_draws half_draws \<and> (0::int) \<le> 10000
   \<and> noise (fromtimestamp ist (PyInt 1703140200)) (fst (random_random half_draws)) = 1 / 2 / 20 + 97 / 100
   \<and> FakeYield.YieldKW (fst (BasicSolarYieldFunc ist (PyInt 1703140200) 10000 half_draws))
        \<le> 102 / 100 * of_int 10000"
  using noise_and_yield_bounds [of half_draws 10000 ist "PyInt 1703140200"] unit_draws_half
  by (simp add: random_random_def half_draws_def)

text \<open>
  Without the restriction on the sign the last bound fails: at a midnight input the
  yield is 0, which exceeds \<open>1.02 * scaleFactor\<close> for the scale factor \<open>- 1\<close>.
\<close>

theorem negative_scale_counterexample:
  "\<not> FakeYield.YieldKW (fst (BasicSolarYieldFunc utc (PyInt 0) (- 1) half_draws))
       \<le> 102 / 100 * of_int (- 1)"
proof -
  have "basefunc (fromtimestamp utc (PyInt 0)) = 0"
    by (rule basefunc_midnight) (simp_all add: epoch_midnight_utc)
  then show ?thesis by (simp add: BSYF_YieldKW)
qed

section \<open>The series\<close>

text \<open>
  C2. For every window \<open>(start, end)\<close> produced by \<open>getWindow\<close> (the clock not running
  backwards between its two readings) and every location, the method returns exactly
  \<open>floor ((end - start) / 300 s)\<close> records; the \<open>i\<close>-th has \<open>TimeUnix\<close> equal to
  \<open>start + i * 300\<close> seconds, so the timestamps lie in \<open>[start, end)\<close>, are spaced by
  exactly 300 seconds and are strictly increasing.
\<close>

theorem series_timestamps:
  assumes "now1 \<le> now2" and "getWindow now1 now2 = (start, end)"
  shows "int (length (fst (get_predicted_solar_yields_for_location tz now1 now2 location g)))
        = \<lfloor>(epoch_seconds end - epoch_seconds start) / 300\<rfloor>
    \<and> (\<forall>i < length (fst (get_predicted_solar_yields_for_location tz now1 now2 location g)).
          num_val (TimeUnix (fst (get_predicted_solar_yields_for_location tz now1 now2 location g) ! i))
            = epoch_seconds start + real i * 300
        \<and> epoch_seconds start
            \<le> num_val (TimeUnix (fst (get_predicted_solar_yields_for_location tz now1 now2 location g) ! i))
        \<and> num_val (TimeUnix (fst (get_predicted_solar_yields_for_location tz now1 now2 location g) ! i))
            < epoch_seconds end)
    \<and> (\<forall>i. Suc i < length (fst (get_predicted_solar_yields_for_location tz now1 now2 location g)) \<longrightarrow>
          num_val (TimeUnix (fst (get_predicted_solar_yields_for_location tz now1 now2 location g) ! Suc i))
            = num_val (TimeUnix (fst (get_predicted_solar_yields_for_location tz now1 now2 location g) ! i)) + 300)
    \<and> (\<forall>i j. i < j \<and> j < length (fst (get_predicted_solar_yields_for_location tz now1 now2 location g)) \<longrightarrow>
          num_val (TimeUnix (fst (get_predicted_solar_yields_for_location tz now1 now2 location g) ! i))
            < num_val (TimeUnix (fst (get_predicted_solar_yields_for_location tz now1 now2 location g) ! j)))"
proof -
  let ?ys = "fst (get_predicted_solar_yields_for_location tz now1 now2 location g)"
  obtain m where m: "1152 \<le> m" "end - start = m * step"
    using getWindow_shape [OF assms] by blast
  have len: "length ?ys = nat m" using assms(2) m(2) by (rule series_nth(1))
  have nth: "num_val (TimeUnix (?ys ! i)) = epoch_seconds start + real i * 300"
    if "i < nat m" for i
    using series_nth(2) [OF assms(2) m(2) that, of tz location g]
    by (simp add: num_val_timestamp epoch_seconds_step)
  have e: "epoch_seconds end = epoch_seconds start + of_int m * 300"
  proof -
    have "end = start + m * step" using m(2) by simp
    then show ?thesis
      by (simp add: epoch_seconds_def step_def timedelta_minutes_def add_divide_distrib)
  qed
  have c1: "int (length ?ys) = \<lfloor>(epoch_seconds end - epoch_seconds start) / 300\<rfloor>"
    using m(1) by (simp add: len e)
  have c2: "epoch_seconds start + real i * 300 < epoch_seconds end" if "i < nat m" for i
  proof -
    have "real i < of_int m" using that by linarith
    then show ?thesis by (simp add: e)
  qed
  show ?thesis using c1 c2 nth by (simp add: len)
qed

theorem series_timestamps_witness:
  "(1730000000000000::int) \<le> 1730000000000000
   \<and> getWindow 1730000000000000 1730000000000000 = (1729814400000000, 1730160000000000)
   \<and> int (length (fst (get_predicted_solar_yields_for_location utc
          1730000000000000 1730000000000000 ''delhi'' half_draws))) = 1152
   \<and> num_val (TimeUnix (fst (get_predicted_solar_yields_for_location utc
          1730000000000000 1730000000000000 ''delhi'' half_draws) ! 1)) = 1729814700"
proof -
  let ?ys = "fst (get_predicted_solar_yields_for_location utc
          1730000000000000 1730000000000000 ''delhi'' half_draws)"
  note t = series_timestamps [OF order_refl window_example, of utc "''delhi''" half_draws]
  from t have len: "int (length ?ys) = 1152" by (simp add: epoch_seconds_def)
  then have "1 < length ?ys" by linarith
  with t have "num_val (TimeUnix (?ys ! 1)) = epoch_seconds 1729814400000000 + real 1 * 300"
    by blast
  then have "num_val (TimeUnix (?ys ! 1)) = 1729814700" by (simp add: epoch_seconds_def)
  with len window_example show ?thesis by simp
qed

text \<open>
  C3. Every record returned has a \<open>TimeUnix\<close> field that is an integer-typed number of
  epoch seconds. The code stores the float returned by \<^verbatim>\<open>time.timestamp()\<close> instead:
  in the series computed at the clock reading 1730000000 s, the first of the 1152
  records has \<open>TimeUnix = 1729814400.0\<close>, a float.
\<close>

theorem first_record_float_timestamp:
  "length (fst (get_predicted_solar_yields_for_location utc
       1730000000000000 1730000000000000 ''delhi'' half_draws)) = 1152
   \<and> TimeUnix (fst (get_predicted_solar_yields_for_location utc
       1730000000000000 1730000000000000 ''delhi'' half_draws) ! 0) = PyFloat 1729814400
   \<and> \<not> is_PyIntTyped (TimeUnix (fst (get_predicted_solar_yields_for_location utc
       1730000000000000 1730000000000000 ''delhi'' half_draws) ! 0))"
proof -
  let ?ys = "fst (get_predicted_solar_yields_for_location utc
       1730000000000000 1730000000000000 ''delhi'' half_draws)"
  have len: "length ?ys = nat 1152"
    using window_example window_example_steps by (rule series_nth(1))
  have "TimeUnix (?ys ! 0) = timestamp (1729814400000000 + int 0 * step)"
    using window_example window_example_steps by (rule series_nth(2)) simp
  then have "TimeUnix (?ys ! 0) = PyFloat 1729814400" by (simp add: timestamp_def)
  with len show ?thesis by simp
qed

text \<open>
  C7. For any two location strings, the method evaluated over the same window returns
  sequences of the same length with the same \<open>TimeUnix\<close> values, whatever the random
  source gives in either call.
\<close>

theorem location_no_op:
  "length (fst (get_predicted_solar_yields_for_location tz now1 now2 location1 g1))
     = length (fst (get_predicted_solar_yields_for_location tz now1 now2 location2 g2))
   \<and> map TimeUnix (fst (get_predicted_solar_yields_for_location tz now1 now2 location1 g1))
     = map TimeUnix (fst (get_predicted_solar_yields_for_location tz now1 now2 location2 g2))"
proof -
  have m: "map TimeUnix (fst (get_predicted_solar_yields_for_location tz now1 now2 location1 g1))
     = map TimeUnix (fst (get_predicted_solar_yields_for_location tz now1 now2 location2 g2))"
    by (simp only: series_TimeUnix)
  from m have "length (fst (get_predicted_solar_yields_for_location tz now1 now2 location1 g1))
     = length (fst (get_predicted_solar_yields_for_location tz now1 now2 location2 g2))"
    by (rule map_eq_imp_length_eq)
  with m show ?thesis by simp
qed

text \<open>
  C8, as amended. For every window with \<open>end \<le> start\<close> the body of the method returns
  the empty sequence rather than raising an error (and leaves the random source
  untouched). For every window between 0400-03-15T12:26:40 and 9600-02-21T20:26:40 UTC
  with \<open>start \<le> end\<close>, in a zone whose UTC offset never exceeds a day, it returns a
  sequence and signals no failure.
\<close>

theorem window_outcome:
  "(end \<le> start \<longrightarrow> yields_for_window_checked tz start end g = Inr ([], g))
   \<and> (- 49538000000000000 \<le> start \<and> start \<le> end \<and> end \<le> 240784000000000000
        \<and> (\<forall>s. \<bar>tz s\<bar> \<le> 86400)
      \<longrightarrow> (\<exists>ys g'. yields_for_window_checked tz start end g = Inr (ys, g')))"
proof -
  have "yields_for_window_checked tz start end g = Inr ([], g)" if "end \<le> start"
    using degenerate_numSteps [OF that]
    by (simp add: yields_for_window_checked_def Let_def py_range_def)
  moreover have "\<exists>ys g'. yields_for_window_checked tz start end g = Inr (ys, g')"
    if r: "- 49538000000000000 \<le> start" "start \<le> end" "end \<le> 240784000000000000"
      and tz: "\<forall>s. \<bar>tz s\<bar> \<le> 86400"
  proof -
    have w: "end - start \<le> 300000000000000000" using r by linarith
    have "\<forall>i\<in>set (py_range (py_int (timedelta_truediv_double (end - start) step))).
        - 49538000000000000 \<le> start + i * step \<and> start + i * step \<le> 240784000000000000"
    proof
      fix i
      assume "i \<in> set (py_range (py_int (timedelta_truediv_double (end - start) step)))"
      with r(2) w have i: "0 \<le> i \<and> start + i * step \<le> end" by (rule range_within_window)
      then have "0 \<le> i * step" by (simp add: step_def timedelta_minutes_def)
      with i r show "- 49538000000000000 \<le> start + i * step
          \<and> start + i * step \<le> 240784000000000000"
        by linarith
    qed
    then show ?thesis
      unfolding yields_for_window_checked_def Let_def using tz by (rule yields_loop_checked_ok)
  qed
  ultimately show ?thesis by blast
qed

theorem window_outcome_witness:
  "(1729814400000000::int) \<le> 1730160000000000
   \<and> yields_for_window_checked utc 1730160000000000 1729814400000000 half_draws
       = Inr ([], half_draws)
   \<and> (- 49538000000000000::int) \<le> 1729814400000000
   \<and> (1729814400000000::int) \<le> 1730160000000000
   \<and> (1730160000000000::int) \<le> 240784000000000000
   \<and> (\<forall>s. \<bar>utc s\<bar> \<le> 86400)
   \<and> (\<exists>ys g'. yields_for_window_checked utc 1729814400000000 1730160000000000 half_draws
         = Inr (ys, g'))"
  using window_outcome [of 1729814400000000 1730160000000000 utc half_draws]
    window_outcome [of 1730160000000000 1729814400000000 utc half_draws]
  by (simp add: utc_def)

text \<open>
  Outside that range the library calls can fail: for the window from 0001-01-01T00:00
  to 0001-01-01T00:10 UTC, in a zone on UTC, \<^verbatim>\<open>datetime.fromtimestamp\<close> looks one day
  back from the first instant, into the year 0, and raises \<^verbatim>\<open>ValueError\<close>.
\<close>

theorem year_one_window_counterexample:
  "yields_for_window_checked utc (- 62135596800000000) (- 62135596200000000) half_draws
     = Inl ValueError"
proof -
  have n: "py_int (timedelta_truediv_double (- 62135596200000000 - - 62135596800000000) step) = 2"
    by (simp add: timedelta_truediv_double_def step_def timedelta_minutes_def round_double_2
        py_int_def)
  have r: "py_range 2 = [0, 1]" by (simp add: py_range_def upt_rec)
  show ?thesis
    unfolding yields_for_window_checked_def Let_def n r
    by (simp add: fromtimestamp_year1 valid_datetime_def)
qed

text \<open>
  On every window that \<open>getWindow\<close> produces from clock readings between 1970 and the
  year 9575, the body with the failures returns what the body without them returns.
\<close>

lemma checked_agrees_on_getWindow:
  assumes "0 \<le> now1" "now1 \<le> now2" "now2 \<le> 240000000000000000"
    and tz: "\<forall>s. \<bar>tz s\<bar> \<le> 86400"
    and w: "getWindow now1 now2 = (start, end)"
  shows "yields_for_window_checked tz start end g
    = Inr (get_predicted_solar_yields_for_location tz now1 now2 location g)"
proof -
  obtain m where m: "1152 \<le> m" "end - start = m * step"
    using getWindow_shape [OF assms(2) w] by blast
  have s: "start = replace_midnight (now1 - timedelta_days 2)"
    and e: "end = replace_midnight (now2 + timedelta_days 2)"
    using w by (simp_all add: getWindow_def Let_def)
  have s_lo: "- 300000000000 \<le> start"
    using assms(1) pos_mod_bound [of 86400000000 "now1 - 172800000000"]
    by (simp add: s replace_midnight_def timedelta_days_def)
  have e_hi: "end \<le> 240000200000000000"
    using assms(3) pos_mod_sign [of 86400000000 "now2 + 172800000000"]
    by (simp add: e replace_midnight_def timedelta_days_def)
  have sd: "1000000 dvd start"
  proof -
    have "86400000000 dvd start"
      unfolding s replace_midnight_def by (simp add: minus_mod_eq_mult_div)
    then show ?thesis by (rule dvd_trans [rotated]) simp
  qed
  have mb: "m \<le> 1000000000" using m(2) s_lo e_hi
    by (simp add: step_def timedelta_minutes_def)
  then have "\<bar>m\<bar> < 2 ^ 53" using m(1) by simp
  then have n: "py_int (timedelta_truediv_double (end - start) step) = m"
    using numSteps_multiple [of m]
    by (simp add: m(2) timedelta_truediv_double_def timedelta_truediv_def
        step_def timedelta_minutes_def round_double_of_int py_int_of_int)
  have n': "py_int (timedelta_truediv (end - start) step) = m"
    by (simp add: m(2) numSteps_multiple)
  have "\<forall>i\<in>set (py_range m). - 49538000000000000 \<le> start + i * step
      \<and> start + i * step \<le> 240784000000000000 \<and> 1000000 dvd start + i * step"
  proof
    fix i
    assume "i \<in> set (py_range m)"
    then have i: "0 \<le> i" "i < m" by (auto simp: py_range_def)
    then have "i * step \<le> m * step" "0 \<le> i * step"
      by (simp_all add: step_def timedelta_minutes_def)
    then have "start \<le> start + i * step" "start + i * step \<le> end" using m(2) by linarith+
    moreover have "1000000 dvd start + i * step"
      using sd by (simp add: step_def timedelta_minutes_def)
    ultimately show "- 49538000000000000 \<le> start + i * step
      \<and> start + i * step \<le> 240784000000000000 \<and> 1000000 dvd start + i * step"
      using s_lo e_hi by simp
  qed
  then have "yields_loop_checked tz start (py_range m) [] g
      = Inr (yields_loop tz start (py_range m) [] g)"
    using tz by (rule yields_loop_checked_agrees)
  then show ?thesis
    by (simp add: yields_for_window_checked_def get_predicted_solar_yields_for_location_def
        yields_for_window_def w n n' Let_def)
qed

text \<open>
  C9. With random draws in the unit interval, every record of the returned sequence
  satisfies \<open>0 \<le> ErrLow \<le> YieldKW \<le> ErrHigh\<close> on its integer-truncated fields.
\<close>

theorem series_band:
  assumes "unit_draws g"
  shows "\<forall>r \<in> set (fst (get_predicted_solar_yields_for_location tz now1 now2 location g)).
           0 \<le> ErrLow r \<and> ErrLow r \<le> YieldKW r \<and> YieldKW r \<le> ErrHigh r"
proof -
  have "\<forall>r \<in> set (fst (yields_loop tz start is [] g)). band_ok r" for start "is"
    using assms by (intro yields_loop_band) simp_all
  then show ?thesis
    by (simp add: get_predicted_solar_yields_for_location_def yields_for_window_def Let_def
        band_ok_def split: prod.splits)
qed

theorem series_band_witness:
  "unit_draws half_draws
   \<and> 0 \<le> ErrLow (fst (get_predicted_solar_yields_for_location utc
        1730000000000000 1730000000000000 ''delhi'' half_draws) ! 0)
   \<and> ErrLow (fst (get_predicted_solar_yields_for_location utc
        1730000000000000 1730000000000000 ''delhi'' half_draws) ! 0)
      \<le> YieldKW (fst (get_predicted_solar_yields_for_location utc
        1730000000000000 1730000000000000 ''delhi'' half_draws) ! 0)
   \<and> YieldKW (fst (get_predicted_solar_yields_for_location utc
        1730000000000000 1730000000000000 ''delhi'' half_draws) ! 0)
      \<le> ErrHigh (fst (get_predicted_solar_yields_for_location utc
        1730000000000000 1730000000000000 ''delhi'' half_draws) ! 0)"
proof -
  let ?ys = "fst (get_predicted_solar_yields_for_location utc
        1730000000000000 1730000000000000 ''delhi'' half_draws)"
  have "length ?ys = nat 1152"
    using window_example window_example_steps by (rule series_nth(1))
  then have "?ys ! 0 \<in> set ?ys" by simp
  with series_band [OF unit_draws_half, of utc 1730000000000000 1730000000000000 "''delhi''"]
    unit_draws_half
  show ?thesis by blast
qed

end
